theory Spec2Isabelle
  imports Main
begin

section \<open>JavaScript values\<close>

text \<open>
  The store of \<^verbatim>\<open>core/state.js\<close> keeps arbitrary JavaScript values. The values of this
  development are plain data: \<^verbatim>\<open>undefined\<close>, \<^verbatim>\<open>null\<close>, booleans, integer-valued
  numbers, \<^verbatim>\<open>NaN\<close>, strings (a \<open>char\<close> is one code unit below 256), dense arrays and
  plain objects. An array or an object carries the reference it lives at: \<^verbatim>\<open>===\<close>
  compares references, never contents. The own properties of an object are listed in
  the order in which the engine enumerates them.
\<close>

datatype jsval =
    VUndefined
  | VNull
  | VBool bool
  | VNum int
  | VNaN
  | VStr string
  | VArr nat "jsval list"
  | VObj nat "(string \<times> jsval) list"

datatype js_error =
    TypeError
  | SyntaxError
  | SecurityError
  | QuotaExceededError
  | Thrown jsval

fun js_typeof :: "jsval \<Rightarrow> string" where
  "js_typeof VUndefined = ''undefined''"
| "js_typeof VNull = ''object''"
| "js_typeof (VBool _) = ''boolean''"
| "js_typeof (VNum _) = ''number''"
| "js_typeof VNaN = ''number''"
| "js_typeof (VStr _) = ''string''"
| "js_typeof (VArr _ _) = ''object''"
| "js_typeof (VObj _ _) = ''object''"

fun is_array :: "jsval \<Rightarrow> bool" where
  "is_array (VArr _ _) = True"
| "is_array _ = False"

text \<open>Truthiness, as \<^verbatim>\<open>if (x)\<close>, \<^verbatim>\<open>!x\<close>, \<^verbatim>\<open>x || y\<close> and \<^verbatim>\<open>x ? a : b\<close> test it.\<close>

fun truthy :: "jsval \<Rightarrow> bool" where
  "truthy VUndefined = False"
| "truthy VNull = False"
| "truthy (VBool b) = b"
| "truthy (VNum n) = (n \<noteq> 0)"
| "truthy VNaN = False"
| "truthy (VStr s) = (s \<noteq> [])"
| "truthy (VArr _ _) = True"
| "truthy (VObj _ _) = True"

text \<open>
  Strict equality \<^verbatim>\<open>===\<close>: primitives by value, \<^verbatim>\<open>NaN\<close> equal to nothing, arrays
  and objects by reference.
\<close>

fun strict_eq :: "jsval \<Rightarrow> jsval \<Rightarrow> bool" where
  "strict_eq VUndefined VUndefined = True"
| "strict_eq VNull VNull = True"
| "strict_eq (VBool a) (VBool b) = (a = b)"
| "strict_eq (VNum a) (VNum b) = (a = b)"
| "strict_eq (VStr a) (VStr b) = (a = b)"
| "strict_eq (VArr i _) (VArr j _) = (i = j)"
| "strict_eq (VObj i _) (VObj j _) = (i = j)"
| "strict_eq _ _ = False"

text \<open>
  SameValueZero, the equality of \<^verbatim>\<open>Map\<close> keys and \<^verbatim>\<open>Set\<close> members: it differs
  from \<^verbatim>\<open>===\<close> on \<^verbatim>\<open>NaN\<close> only.
\<close>

fun same_value_zero :: "jsval \<Rightarrow> jsval \<Rightarrow> bool" where
  "same_value_zero VNaN VNaN = True"
| "same_value_zero a b = strict_eq a b"

subsection \<open>Decimal numerals\<close>

definition digit_char :: "nat \<Rightarrow> char" where
  "digit_char d = ''0123456789'' ! d"

function show_nat :: "nat \<Rightarrow> string" where
  "show_nat n = (if n < 10 then [digit_char n] else show_nat (n div 10) @ [digit_char (n mod 10)])"
  by pat_completeness auto
termination
  by (relation "measure id") auto

declare show_nat.simps [simp del]

definition show_int :: "int \<Rightarrow> string" where
  "show_int i = (if i < 0 then CHR ''-'' # show_nat (nat (- i)) else show_nat (nat i))"

definition is_digit :: "char \<Rightarrow> bool" where
  "is_digit c = (48 \<le> (of_char c :: nat) \<and> (of_char c :: nat) \<le> 57)"

definition digit_val :: "char \<Rightarrow> nat" where
  "digit_val c = of_char c - 48"

definition read_nat :: "string \<Rightarrow> nat" where
  "read_nat s = foldl (\<lambda>n c. 10 * n + digit_val c) 0 s"

subsection \<open>Property keys and own properties\<close>

text \<open>
  The conversion to a string, which \<^verbatim>\<open>obj[key]\<close> applies to the key, and
  \<^verbatim>\<open>getItem\<close>, \<^verbatim>\<open>setItem\<close> and \<^verbatim>\<open>JSON.parse\<close> to their arguments. A plain object
  gives \<^verbatim>\<open>[object Object]\<close> and an array joins its elements with commas.
\<close>

fun to_string :: "jsval \<Rightarrow> string" where
  "to_string VUndefined = ''undefined''"
| "to_string VNull = ''null''"
| "to_string (VBool b) = (if b then ''true'' else ''false'')"
| "to_string (VNum n) = show_int n"
| "to_string VNaN = ''NaN''"
| "to_string (VStr s) = s"
| "to_string (VObj _ _) = ''[object Object]''"
| "to_string (VArr _ []) = []"
| "to_string (VArr i (x # xs)) =
     (if x = VUndefined \<or> x = VNull then [] else to_string x)
     @ (if xs = [] then [] else CHR '','' # to_string (VArr i xs))"

text \<open>
  An array index is a canonical numeral below \<open>2^32 - 1\<close>. The engine enumerates the
  own properties of an object with the array indices first, ascending, and the other
  string keys after them in the order of their creation.
\<close>

definition array_index :: "string \<Rightarrow> nat option" where
  "array_index s =
     (if s \<noteq> [] \<and> list_all is_digit s \<and> show_nat (read_nat s) = s \<and> read_nat s < 4294967295
      then Some (read_nat s) else None)"

fun insert_index :: "nat \<Rightarrow> string \<times> jsval \<Rightarrow> (string \<times> jsval) list \<Rightarrow> (string \<times> jsval) list" where
  "insert_index i kv [] = [kv]"
| "insert_index i kv (p # ps) =
     (case array_index (fst p) of
        Some j \<Rightarrow> if j < i then p # insert_index i kv ps else kv # p # ps
      | None \<Rightarrow> kv # p # ps)"

text \<open>
  \<^verbatim>\<open>obj[k] = v\<close> on an object of own data properties: an existing property keeps its
  place and takes the new value, a new one is created at its place in the enumeration
  order. Only own properties are modelled: a name that the engine finds on
  \<^verbatim>\<open>Object.prototype\<close> (such as the accessor \<^verbatim>\<open>__proto__\<close>) reads as absent here.
\<close>

definition obj_put :: "string \<Rightarrow> jsval \<Rightarrow> (string \<times> jsval) list \<Rightarrow> (string \<times> jsval) list" where
  "obj_put k v ps =
     (if k \<in> fst ` set ps then map (\<lambda>p. if fst p = k then (k, v) else p) ps
      else case array_index k of
             Some i \<Rightarrow> insert_index i (k, v) ps
           | None \<Rightarrow> ps @ [(k, v)])"

definition prop_get :: "(string \<times> jsval) list \<Rightarrow> string \<Rightarrow> jsval" where
  "prop_get ps k = (case map_of ps k of Some v \<Rightarrow> v | None \<Rightarrow> VUndefined)"

text \<open>
  The own enumerable string-keyed properties, as \<^verbatim>\<open>Object.entries\<close> and the object
  spread \<^verbatim>\<open>{...x}\<close> read them: the properties of an object, the indexed elements of an
  array, the indexed characters of a string, nothing for the other primitives.
\<close>

fun own_entries :: "jsval \<Rightarrow> (string \<times> jsval) list" where
  "own_entries (VObj _ ps) = ps"
| "own_entries (VArr _ xs) = zip (map show_nat [0..<length xs]) xs"
| "own_entries (VStr s) = zip (map show_nat [0..<length s]) (map (\<lambda>c. VStr [c]) s)"
| "own_entries _ = []"

text \<open>\<^verbatim>\<open>Object.entries(x)\<close> throws a TypeError on \<^verbatim>\<open>null\<close> and \<^verbatim>\<open>undefined\<close>.\<close>

definition object_entries :: "jsval \<Rightarrow> js_error + (string \<times> jsval) list" where
  "object_entries x = (if x = VNull \<or> x = VUndefined then Inl TypeError else Inr (own_entries x))"

text \<open>The properties of the object literal \<^verbatim>\<open>{...a, ...b}\<close>, given the entries copied in order.\<close>

definition put_all :: "(string \<times> jsval) list \<Rightarrow> (string \<times> jsval) list \<Rightarrow> (string \<times> jsval) list" where
  "put_all ps es = foldl (\<lambda>acc e. obj_put (fst e) (snd e) acc) ps es"

section \<open>The JSON codec\<close>

text \<open>
  \<^verbatim>\<open>persist\<close> and \<^verbatim>\<open>loadPersisted\<close> go through the engine's \<^verbatim>\<open>JSON.stringify\<close> and
  \<^verbatim>\<open>JSON.parse\<close>. Both are written out here for the values above. The numerals are the
  integers: the parser of this development refuses a numeral with a fraction or an
  exponent, and an escape \<^verbatim>\<open>\uXXXX\<close> of a code unit above 255, as it refuses malformed
  text.
\<close>

datatype json =
    JNull
  | JBool bool
  | JNum int
  | JStr string
  | JArr "json list"
  | JObj "(string \<times> json) list"

text \<open>
  What \<^verbatim>\<open>JSON.stringify\<close> keeps of a value: \<^verbatim>\<open>undefined\<close> has no JSON form (it
  becomes \<^verbatim>\<open>null\<close> inside an array and its property is left out of an object), and
  \<^verbatim>\<open>NaN\<close> is written \<^verbatim>\<open>null\<close>.
\<close>

fun to_json :: "jsval \<Rightarrow> json option" where
  "to_json VUndefined = None"
| "to_json VNull = Some JNull"
| "to_json (VBool b) = Some (JBool b)"
| "to_json (VNum n) = Some (JNum n)"
| "to_json VNaN = Some JNull"
| "to_json (VStr s) = Some (JStr s)"
| "to_json (VArr _ xs) =
     Some (JArr (map (\<lambda>x. case to_json x of None \<Rightarrow> JNull | Some j \<Rightarrow> j) xs))"
| "to_json (VObj _ ps) =
     Some (JObj (concat (map (\<lambda>p. case to_json (snd p) of None \<Rightarrow> [] | Some j \<Rightarrow> [(fst p, j)]) ps)))"

definition hex_char :: "nat \<Rightarrow> char" where
  "hex_char d = ''0123456789abcdef'' ! d"

text \<open>The escapes of a quoted JSON string, as \<^verbatim>\<open>JSON.stringify\<close> writes them.\<close>

definition escape_char :: "char \<Rightarrow> string" where
  "escape_char c =
     (if c = CHR 0x22 then [CHR 0x5C, CHR 0x22]
      else if c = CHR 0x5C then [CHR 0x5C, CHR 0x5C]
      else if c = CHR 0x08 then [CHR 0x5C, CHR ''b'']
      else if c = CHR 0x09 then [CHR 0x5C, CHR ''t'']
      else if c = CHR 0x0A then [CHR 0x5C, CHR ''n'']
      else if c = CHR 0x0C then [CHR 0x5C, CHR ''f'']
      else if c = CHR 0x0D then [CHR 0x5C, CHR ''r'']
      else if (of_char c :: nat) < 32
        then [CHR 0x5C, CHR ''u'', CHR ''0'', CHR ''0'',
              hex_char ((of_char c :: nat) div 16), hex_char ((of_char c :: nat) mod 16)]
      else [c])"

definition quote :: "string \<Rightarrow> string" where
  "quote s = CHR 0x22 # concat (map escape_char s) @ [CHR 0x22]"

fun show_json :: "json \<Rightarrow> string"
  and show_elems :: "json list \<Rightarrow> string"
  and show_members :: "(string \<times> json) list \<Rightarrow> string" where
  "show_json JNull = ''null''"
| "show_json (JBool b) = (if b then ''true'' else ''false'')"
| "show_json (JNum n) = show_int n"
| "show_json (JStr s) = quote s"
| "show_json (JArr xs) = CHR ''['' # show_elems xs"
| "show_json (JObj ps) = CHR ''{'' # show_members ps"
| "show_elems [] = '']''"
| "show_elems (x # xs) = show_json x @ (if xs = [] then [] else '','') @ show_elems xs"
| "show_members [] = ''}''"
| "show_members (p # ps) =
     quote (fst p) @ '':'' @ show_json (snd p) @ (if ps = [] then [] else '','') @ show_members ps"

text \<open>\<^verbatim>\<open>JSON.stringify(v)\<close>: the text, or \<^verbatim>\<open>undefined\<close> when the value has no JSON form.\<close>

definition json_stringify :: "jsval \<Rightarrow> jsval" where
  "json_stringify v = (case to_json v of None \<Rightarrow> VUndefined | Some j \<Rightarrow> VStr (show_json j))"

subsection \<open>Parsing\<close>

definition is_ws :: "char \<Rightarrow> bool" where
  "is_ws c = (c = CHR 0x20 \<or> c = CHR 0x09 \<or> c = CHR 0x0A \<or> c = CHR 0x0D)"

fun skip_ws :: "string \<Rightarrow> string" where
  "skip_ws [] = []"
| "skip_ws (c # r) = (if is_ws c then skip_ws r else c # r)"

definition strip_prefix :: "string \<Rightarrow> string \<Rightarrow> string option" where
  "strip_prefix p s = (if take (length p) s = p then Some (drop (length p) s) else None)"

definition hex_val :: "char \<Rightarrow> nat option" where
  "hex_val c =
     (let n = (of_char c :: nat) in
      if 48 \<le> n \<and> n \<le> 57 then Some (n - 48)
      else if 97 \<le> n \<and> n \<le> 102 then Some (n - 87)
      else if 65 \<le> n \<and> n \<le> 70 then Some (n - 55)
      else None)"

definition hex4 :: "char \<Rightarrow> char \<Rightarrow> char \<Rightarrow> char \<Rightarrow> nat option" where
  "hex4 a b c d =
     (case (hex_val a, hex_val b, hex_val c, hex_val d) of
        (Some w, Some x, Some y, Some z) \<Rightarrow> Some (4096 * w + 256 * x + 16 * y + z)
      | _ \<Rightarrow> None)"

definition unescape :: "char \<Rightarrow> char option" where
  "unescape e =
     (if e = CHR 0x22 then Some (CHR 0x22)
      else if e = CHR 0x5C then Some (CHR 0x5C)
      else if e = CHR ''/'' then Some (CHR ''/'')
      else if e = CHR ''b'' then Some (CHR 0x08)
      else if e = CHR ''f'' then Some (CHR 0x0C)
      else if e = CHR ''n'' then Some (CHR 0x0A)
      else if e = CHR ''r'' then Some (CHR 0x0D)
      else if e = CHR ''t'' then Some (CHR 0x09)
      else None)"

definition cons_fst :: "'a \<Rightarrow> ('a list \<times> 'b) option \<Rightarrow> ('a list \<times> 'b) option" where
  "cons_fst x r = map_option (\<lambda>p. (x # fst p, snd p)) r"

text \<open>The characters of a string up to its closing quote, and the text after it.\<close>

fun read_chars :: "string \<Rightarrow> (string \<times> string) option" where
  "read_chars [] = None"
| "read_chars [c] = (if c = CHR 0x22 then Some ([], []) else None)"
| "read_chars (c # e # r) =
     (if c = CHR 0x22 then Some ([], e # r)
      else if c = CHR 0x5C then
        (if e = CHR ''u'' then
           (case r of
              a # b # x # d # r' \<Rightarrow>
                (case hex4 a b x d of
                   Some n \<Rightarrow> if n < 256 then cons_fst (char_of n) (read_chars r') else None
                 | None \<Rightarrow> None)
            | _ \<Rightarrow> None)
         else (case unescape e of
                 Some ch \<Rightarrow> cons_fst ch (read_chars r)
               | None \<Rightarrow> None))
      else if (of_char c :: nat) < 32 then None
      else cons_fst c (read_chars (e # r)))"

text \<open>An integer numeral: an optional minus sign, then \<^verbatim>\<open>0\<close> or digits with no leading zero.\<close>

definition read_number :: "string \<Rightarrow> (int \<times> string) option" where
  "read_number s =
     (let neg = (s \<noteq> [] \<and> hd s = CHR ''-'');
          s1 = (if neg then tl s else s);
          ds = takeWhile is_digit s1;
          r = dropWhile is_digit s1
      in if ds = [] then None
         else if hd ds = CHR ''0'' \<and> tl ds \<noteq> [] then None
         else if r \<noteq> [] \<and> (hd r = CHR ''.'' \<or> hd r = CHR ''e'' \<or> hd r = CHR ''E'') then None
         else Some (if neg then - int (read_nat ds) else int (read_nat ds), r))"

text \<open>
  The recursive descent, with fuel: one unit for each value, element and member on the
  path. \<open>read_json\<close> gives it more fuel than the text has characters.
\<close>

fun read_value :: "nat \<Rightarrow> string \<Rightarrow> (json \<times> string) option"
  and read_elems :: "nat \<Rightarrow> string \<Rightarrow> (json list \<times> string) option"
  and read_members :: "nat \<Rightarrow> string \<Rightarrow> ((string \<times> json) list \<times> string) option" where
  "read_value 0 s = None"
| "read_value (Suc n) s =
     (case skip_ws s of
        [] \<Rightarrow> None
      | c # r \<Rightarrow>
          if c = CHR ''{'' then
            (case skip_ws r of
               [] \<Rightarrow> None
             | c' # r' \<Rightarrow> if c' = CHR ''}'' then Some (JObj [], r')
                          else map_option (\<lambda>p. (JObj (fst p), snd p)) (read_members n r))
          else if c = CHR ''['' then
            (case skip_ws r of
               [] \<Rightarrow> None
             | c' # r' \<Rightarrow> if c' = CHR '']'' then Some (JArr [], r')
                          else map_option (\<lambda>p. (JArr (fst p), snd p)) (read_elems n r))
          else if c = CHR 0x22 then map_option (\<lambda>p. (JStr (fst p), snd p)) (read_chars r)
          else if c = CHR ''n'' then map_option (Pair JNull) (strip_prefix ''ull'' r)
          else if c = CHR ''t'' then map_option (Pair (JBool True)) (strip_prefix ''rue'' r)
          else if c = CHR ''f'' then map_option (Pair (JBool False)) (strip_prefix ''alse'' r)
          else map_option (\<lambda>p. (JNum (fst p), snd p)) (read_number (c # r)))"
| "read_elems 0 s = None"
| "read_elems (Suc n) s =
     (case read_value n s of
        None \<Rightarrow> None
      | Some (v, r) \<Rightarrow>
          (case skip_ws r of
             [] \<Rightarrow> None
           | c # r' \<Rightarrow> if c = CHR '','' then cons_fst v (read_elems n r')
                        else if c = CHR '']'' then Some ([v], r')
                        else None))"
| "read_members 0 s = None"
| "read_members (Suc n) s =
     (case skip_ws s of
        [] \<Rightarrow> None
      | c # r \<Rightarrow>
          if c \<noteq> CHR 0x22 then None
          else (case read_chars r of
                  None \<Rightarrow> None
                | Some (k, r1) \<Rightarrow>
                    (case skip_ws r1 of
                       [] \<Rightarrow> None
                     | c1 # r2 \<Rightarrow>
                         if c1 \<noteq> CHR '':'' then None
                         else (case read_value n r2 of
                                 None \<Rightarrow> None
                               | Some (v, r3) \<Rightarrow>
                                   (case skip_ws r3 of
                                      [] \<Rightarrow> None
                                    | c3 # r4 \<Rightarrow>
                                        if c3 = CHR '','' then cons_fst (k, v) (read_members n r4)
                                        else if c3 = CHR ''}'' then Some ([(k, v)], r4)
                                        else None)))))"

definition read_json :: "string \<Rightarrow> json option" where
  "read_json s =
     (case read_value (Suc (length s)) s of
        None \<Rightarrow> None
      | Some (j, r) \<Rightarrow> if skip_ws r = [] then Some j else None)"

text \<open>
  \<^verbatim>\<open>JSON.parse\<close> builds fresh arrays and objects; the second argument is the next free
  reference. The properties of an object are created in the order of the text.
\<close>

fun from_json :: "json \<Rightarrow> nat \<Rightarrow> jsval \<times> nat"
  and from_json_list :: "json list \<Rightarrow> nat \<Rightarrow> jsval list \<times> nat" where
  "from_json JNull n = (VNull, n)"
| "from_json (JBool b) n = (VBool b, n)"
| "from_json (JNum i) n = (VNum i, n)"
| "from_json (JStr s) n = (VStr s, n)"
| "from_json (JArr xs) n =
     (case from_json_list xs (Suc n) of (vs, n') \<Rightarrow> (VArr n vs, n'))"
| "from_json (JObj ps) n =
     (case from_json_list (map snd ps) (Suc n) of
        (vs, n') \<Rightarrow> (VObj n (put_all [] (zip (map fst ps) vs)), n'))"
| "from_json_list [] n = ([], n)"
| "from_json_list (x # xs) n =
     (case from_json x n of
        (v, n1) \<Rightarrow> (case from_json_list xs n1 of (vs, n2) \<Rightarrow> (v # vs, n2)))"

definition json_parse :: "string \<Rightarrow> nat \<Rightarrow> js_error + (jsval \<times> nat)" where
  "json_parse s n = (case read_json s of None \<Rightarrow> Inl SyntaxError | Some j \<Rightarrow> Inr (from_json j n))"

section \<open>The store and its environment\<close>

text \<open>
  A listener or a predicate is code of the caller. A listener is known by its
  reference and by what a call does: return, or throw. A call is recorded in the
  trace \<open>calls\<close>. A listener that calls back into the store is outside this
  development.
\<close>

datatype callback = Callback (cb_id: nat) (cb_run: "jsval \<Rightarrow> jsval \<Rightarrow> js_error option")

type_synonym predicate = "jsval \<Rightarrow> js_error + jsval"

text \<open>
  \<^verbatim>\<open>localStorage\<close>: the stored strings, and whether the browser serves it. A full
  storage throws on every write, a blocked one on every access.
\<close>

datatype storage_mode = Available | Full | Blocked

record storage =
  items :: "string \<Rightarrow> string option"
  mode :: storage_mode

definition getItem :: "storage \<Rightarrow> string \<Rightarrow> js_error + jsval" where
  "getItem st k =
     (if mode st = Blocked then Inl SecurityError
      else Inr (case items st k of None \<Rightarrow> VNull | Some s \<Rightarrow> VStr s))"

definition setItem :: "storage \<Rightarrow> string \<Rightarrow> string \<Rightarrow> js_error + storage" where
  "setItem st k s =
     (if mode st = Blocked then Inl SecurityError
      else if mode st = Full then Inl QuotaExceededError
      else Inr (st\<lparr>items := (items st)(k \<mapsto> s)\<rparr>))"

text \<open>
  The \<^verbatim>\<open>State\<close> instance (\<open>state\<close> with the reference of the object it is,
  \<open>listeners\<close>) and what it acts on: the storage, the lines written with
  \<^verbatim>\<open>console.error\<close>, the trace of the listener calls (listener, new value, old value)
  and the next free reference of the heap.
\<close>

record world =
  state_ref :: nat
  state :: "(string \<times> jsval) list"
  listeners :: "(jsval \<times> callback list) list"
  localStorage :: storage
  console :: "(string \<times> js_error) list"
  calls :: "(nat \<times> jsval \<times> jsval) list"
  next_ref :: nat

subsection \<open>\<^verbatim>\<open>Map\<close> and \<^verbatim>\<open>Set\<close>\<close>

fun map_get :: "(jsval \<times> 'a) list \<Rightarrow> jsval \<Rightarrow> 'a option" where
  "map_get [] k = None"
| "map_get (p # ps) k = (if same_value_zero (fst p) k then Some (snd p) else map_get ps k)"

fun map_set :: "jsval \<Rightarrow> 'a \<Rightarrow> (jsval \<times> 'a) list \<Rightarrow> (jsval \<times> 'a) list" where
  "map_set k x [] = [(k, x)]"
| "map_set k x (p # ps) =
     (if same_value_zero (fst p) k then (fst p, x) # ps else p # map_set k x ps)"

definition set_has :: "callback list \<Rightarrow> callback \<Rightarrow> bool" where
  "set_has cs c = (cb_id c \<in> cb_id ` set cs)"

definition set_add :: "callback \<Rightarrow> callback list \<Rightarrow> callback list" where
  "set_add c cs = (if set_has cs c then cs else cs @ [c])"

definition set_delete :: "callback \<Rightarrow> callback list \<Rightarrow> callback list" where
  "set_delete c cs = filter (\<lambda>d. cb_id d \<noteq> cb_id c) cs"

section \<open>The operations of \<^verbatim>\<open>State\<close>\<close>

text \<open>\<^verbatim>\<open>constructor()\<close>: an empty state object and an empty map of listeners.\<close>

definition new_State :: "world \<Rightarrow> world" where
  "new_State w = w\<lparr>state_ref := next_ref w, state := [], listeners := [],
                   next_ref := Suc (next_ref w)\<rparr>"

text \<open>
  \<^verbatim>\<open>init(initialState = {})\<close>: the object literal of the five defaults, the seed spread
  over them. Reading the theme is outside any \<^verbatim>\<open>try\<close>.
\<close>

definition default_entries :: "jsval \<Rightarrow> nat \<Rightarrow> (string \<times> jsval) list" where
  "default_entries t n =
     [(''theme'', if truthy t then t else VStr ''light''),
      (''notifications'', VArr (n + 1) []),
      (''sidebarOpen'', VBool True),
      (''loading'', VBool False),
      (''errors'', VObj (n + 2) [])]"

definition init :: "jsval \<Rightarrow> world \<Rightarrow> js_error + world" where
  "init initialState w =
     (case getItem (localStorage w) ''theme'' of
        Inl e \<Rightarrow> Inl e
      | Inr t \<Rightarrow>
          let n = next_ref w in
          Inr (w\<lparr>state_ref := n,
                 state := put_all [] (default_entries t n @ own_entries initialState),
                 next_ref := n + 3\<rparr>))"


text \<open>
  \<^verbatim>\<open>notifyListeners(key, newValue, oldValue)\<close>: every listener of the key's set is
  called, in the order of the set; what a listener throws is caught and logged.
\<close>

definition invoke :: "jsval \<Rightarrow> jsval \<Rightarrow> world \<Rightarrow> callback \<Rightarrow> world" where
  "invoke newValue oldValue w cb =
     (let w1 = w\<lparr>calls := calls w @ [(cb_id cb, newValue, oldValue)]\<rparr> in
      case cb_run cb newValue oldValue of
        None \<Rightarrow> w1
      | Some e \<Rightarrow> w1\<lparr>console := console w1 @ [(''Error in state listener:'', e)]\<rparr>)"

definition notifyListeners :: "jsval \<Rightarrow> jsval \<Rightarrow> jsval \<Rightarrow> world \<Rightarrow> world" where
  "notifyListeners key newValue oldValue w =
     (case map_get (listeners w) key of
        None \<Rightarrow> w
      | Some cbs \<Rightarrow> foldl (invoke newValue oldValue) w cbs)"

text \<open>\<^verbatim>\<open>setState(key, value)\<close>: the write, then the notification when \<^verbatim>\<open>oldValue !== value\<close>.\<close>

definition setState :: "jsval \<Rightarrow> jsval \<Rightarrow> world \<Rightarrow> world" where
  "setState key value w =
     (let oldValue = prop_get (state w) (to_string key);
          w1 = w\<lparr>state := obj_put (to_string key) value (state w)\<rparr>
      in if \<not> strict_eq oldValue value then notifyListeners key value oldValue w1 else w1)"

text \<open>
  \<^verbatim>\<open>set(keyOrObject, value)\<close>: an argument of type \<^verbatim>\<open>object\<close> is read as a patch, each
  of its entries written with \<^verbatim>\<open>setState\<close>; \<^verbatim>\<open>Object.entries(null)\<close> throws.
\<close>

definition set_entries :: "(string \<times> jsval) list \<Rightarrow> world \<Rightarrow> world" where
  "set_entries es w = foldl (\<lambda>w e. setState (VStr (fst e)) (snd e) w) w es"

definition set_value :: "jsval \<Rightarrow> jsval \<Rightarrow> world \<Rightarrow> js_error + world" where
  "set_value keyOrObject value w =
     (if js_typeof keyOrObject = ''object'' then
        (case object_entries keyOrObject of
           Inl e \<Rightarrow> Inl e
         | Inr es \<Rightarrow> Inr (set_entries es w))
      else Inr (setState keyOrObject value w))"

text \<open>
  \<^verbatim>\<open>subscribe(key, callback)\<close>: the key gets a set on its first subscription, the
  callback is added to it. The handle returned closes over that set and the callback;
  the map never replaces the set of a key, so the handle is the key and the callback.
\<close>

datatype unsubscribe = Unsubscribe jsval callback

definition subscribe :: "jsval \<Rightarrow> callback \<Rightarrow> world \<Rightarrow> unsubscribe \<times> world" where
  "subscribe key callback w =
     (let m = (if map_get (listeners w) key = None then map_set key [] (listeners w)
               else listeners w);
          cs = (case map_get m key of None \<Rightarrow> [] | Some cs \<Rightarrow> cs)
      in (Unsubscribe key callback, w\<lparr>listeners := map_set key (set_add callback cs) m\<rparr>))"

text \<open>Calling the handle: \<^verbatim>\<open>listeners.delete(callback)\<close>, and its boolean.\<close>

fun call_unsubscribe :: "unsubscribe \<Rightarrow> world \<Rightarrow> bool \<times> world" where
  "call_unsubscribe (Unsubscribe key callback) w =
     (case map_get (listeners w) key of
        None \<Rightarrow> (False, w)
      | Some cs \<Rightarrow>
          (set_has cs callback,
           w\<lparr>listeners := map_set key (set_delete callback cs) (listeners w)\<rparr>))"

definition reset :: "jsval \<Rightarrow> world \<Rightarrow> js_error + world" where
  "reset initialState w = init initialState w"

definition toggle :: "jsval \<Rightarrow> world \<Rightarrow> js_error + world" where
  "toggle key w =
     (let cur = prop_get (state w) (to_string key) in
      if js_typeof cur = ''boolean'' then set_value key (VBool (\<not> truthy cur)) w
      else Inr w)"

fun array_items :: "jsval \<Rightarrow> jsval list" where
  "array_items (VArr _ xs) = xs"
| "array_items _ = []"

text \<open>\<^verbatim>\<open>addItem(key, item)\<close>: a new array \<^verbatim>\<open>[...old, item]\<close>.\<close>

definition addItem :: "jsval \<Rightarrow> jsval \<Rightarrow> world \<Rightarrow> js_error + world" where
  "addItem key item w =
     (let cur = prop_get (state w) (to_string key) in
      if is_array cur then
        set_value key (VArr (next_ref w) (array_items cur @ [item]))
          (w\<lparr>next_ref := Suc (next_ref w)\<rparr>)
      else Inr w)"

text \<open>
  \<^verbatim>\<open>old.filter(item => !predicate(item))\<close>: the predicate is called on each element
  in turn; what it throws ends the filter.
\<close>

fun filter_not :: "predicate \<Rightarrow> jsval list \<Rightarrow> js_error + jsval list" where
  "filter_not p [] = Inr []"
| "filter_not p (x # xs) =
     (case p x of
        Inl e \<Rightarrow> Inl e
      | Inr r \<Rightarrow>
          (case filter_not p xs of
             Inl e \<Rightarrow> Inl e
           | Inr ys \<Rightarrow> Inr (if \<not> truthy r then x # ys else ys)))"

definition removeItem :: "jsval \<Rightarrow> predicate \<Rightarrow> world \<Rightarrow> js_error + world" where
  "removeItem key predicate w =
     (let cur = prop_get (state w) (to_string key) in
      if is_array cur then
        (case filter_not predicate (array_items cur) of
           Inl e \<Rightarrow> Inl e
         | Inr ys \<Rightarrow> set_value key (VArr (next_ref w) ys) (w\<lparr>next_ref := Suc (next_ref w)\<rparr>))
      else Inr w)"

text \<open>
  \<^verbatim>\<open>old.map(item => predicate(item) ? { ...item, ...updates } : item)\<close>: a matched
  element is replaced by a new object with the own properties of the element, then
  those of the patch.
\<close>

definition spread2 :: "jsval \<Rightarrow> jsval \<Rightarrow> (string \<times> jsval) list" where
  "spread2 item updates = put_all [] (own_entries item @ own_entries updates)"

fun map_update :: "predicate \<Rightarrow> jsval \<Rightarrow> nat \<Rightarrow> jsval list \<Rightarrow> js_error + (jsval list \<times> nat)" where
  "map_update p updates n [] = Inr ([], n)"
| "map_update p updates n (x # xs) =
     (case p x of
        Inl e \<Rightarrow> Inl e
      | Inr r \<Rightarrow>
          if truthy r then
            (case map_update p updates (Suc n) xs of
               Inl e \<Rightarrow> Inl e
             | Inr (ys, n') \<Rightarrow> Inr (VObj n (spread2 x updates) # ys, n'))
          else
            (case map_update p updates n xs of
               Inl e \<Rightarrow> Inl e
             | Inr (ys, n') \<Rightarrow> Inr (x # ys, n')))"

definition updateItem :: "jsval \<Rightarrow> predicate \<Rightarrow> jsval \<Rightarrow> world \<Rightarrow> js_error + world" where
  "updateItem key predicate updates w =
     (let cur = prop_get (state w) (to_string key) in
      if is_array cur then
        (case map_update predicate updates (Suc (next_ref w)) (array_items cur) of
           Inl e \<Rightarrow> Inl e
         | Inr (ys, n') \<Rightarrow> set_value key (VArr (next_ref w) ys) (w\<lparr>next_ref := n'\<rparr>))
      else Inr w)"

text \<open>
  \<^verbatim>\<open>persist(key)\<close>: the JSON text of the value goes to the storage under the key
  (the string \<^verbatim>\<open>undefined\<close> when there is no JSON text). Whatever is thrown is caught
  and logged.
\<close>

definition persist :: "jsval \<Rightarrow> world \<Rightarrow> world" where
  "persist key w =
     (case setItem (localStorage w) (to_string key)
             (to_string (json_stringify (prop_get (state w) (to_string key)))) of
        Inl e \<Rightarrow> w\<lparr>console := console w @ [(''Error persisting state:'', e)]\<rparr>
      | Inr st \<Rightarrow> w\<lparr>localStorage := st\<rparr>)"

text \<open>
  \<^verbatim>\<open>loadPersisted(key)\<close>: a truthy stored string is parsed, written with \<^verbatim>\<open>set\<close> and
  returned; \<^verbatim>\<open>null\<close> is returned when nothing is stored or when something was thrown
  and logged.
\<close>

definition load_failed :: "js_error \<Rightarrow> world \<Rightarrow> jsval \<times> world" where
  "load_failed e w = (VNull, w\<lparr>console := console w @ [(''Error loading persisted state:'', e)]\<rparr>)"

definition loadPersisted :: "jsval \<Rightarrow> world \<Rightarrow> jsval \<times> world" where
  "loadPersisted key w =
     (case getItem (localStorage w) (to_string key) of
        Inl e \<Rightarrow> load_failed e w
      | Inr v \<Rightarrow>
          if truthy v then
            (case json_parse (to_string v) (next_ref w) of
               Inl e \<Rightarrow> load_failed e w
             | Inr (parsed, n') \<Rightarrow>
                 (case set_value key parsed (w\<lparr>next_ref := n'\<rparr>) of
                    Inl e \<Rightarrow> load_failed e (w\<lparr>next_ref := n'\<rparr>)
                  | Inr w' \<Rightarrow> (parsed, w')))
          else (VNull, w))"

section \<open>Notions used by the properties\<close>


text \<open>A \<^verbatim>\<open>Set\<close> holds a listener once: the invariant of the map of listeners.\<close>

definition wf_listeners :: "(jsval \<times> callback list) list \<Rightarrow> bool" where
  "wf_listeners m = list_all (\<lambda>p. distinct (map cb_id (snd p))) m"


text \<open>
  The single-key form applied to each pair of a list in turn: what the bulk form of
  \<^verbatim>\<open>set\<close> is said to be equivalent to.
\<close>

fun set_each :: "(string \<times> jsval) list \<Rightarrow> world \<Rightarrow> js_error + world" where
  "set_each [] w = Inr w"
| "set_each (e # es) w =
     (case set_value (VStr (fst e)) (snd e) w of
        Inl x \<Rightarrow> Inl x
      | Inr w' \<Rightarrow> set_each es w')"


text \<open>A store just constructed, over an empty storage that is available.\<close>

definition fresh_world :: world where
  "fresh_world =
     \<lparr>state_ref = 0, state = [], listeners = [],
      localStorage = \<lparr>items = Map.empty, mode = Available\<rparr>,
      console = [], calls = [], next_ref = 1\<rparr>"

text \<open>A listener that returns, and one that throws.\<close>

definition quiet :: "nat \<Rightarrow> callback" where
  "quiet i = Callback i (\<lambda>_ _. None)"

definition failing :: "nat \<Rightarrow> js_error \<Rightarrow> callback" where
  "failing i e = Callback i (\<lambda>_ _. Some e)"

text \<open>A failing listener and a quiet one, subscribed in this order to \<^verbatim>\<open>loading\<close>.\<close>

definition two_listeners :: world where
  "two_listeners =
     snd (subscribe (VStr ''loading'') (quiet 2)
       (snd (subscribe (VStr ''loading'') (failing 1 (Thrown (VStr ''boom''))) fresh_world)))"


text \<open>Whether a predicate returns a truthy value on an element.\<close>

definition holds :: "predicate \<Rightarrow> jsval \<Rightarrow> bool" where
  "holds p x = (case p x of Inl _ \<Rightarrow> False | Inr r \<Rightarrow> truthy r)"

text \<open>
  A list of properties is in the order of the engine, with no key twice, when the engine
  building an object from it gets the same list.
\<close>

definition canonical :: "(string \<times> jsval) list \<Rightarrow> bool" where
  "canonical ps = (put_all [] ps = ps)"

text \<open>A store whose key \<^verbatim>\<open>tags\<close> holds the array \<^verbatim>\<open>['ab']\<close>.\<close>

definition tags_world :: world where
  "tags_world = fresh_world\<lparr>state := [(''tags'', VArr 1 [VStr ''ab''])], next_ref := 10\<rparr>"

definition always :: predicate where
  "always x = Inr (VBool True)"

definition throwing :: predicate where
  "throwing x = Inl (Thrown (VStr ''boom''))"

text \<open>A store whose key \<^verbatim>\<open>nums\<close> holds \<^verbatim>\<open>[1, 2, 3]\<close>, and the predicate \<^verbatim>\<open>x => x === n\<close>.\<close>

definition nums_world :: world where
  "nums_world =
     fresh_world\<lparr>state := [(''nums'', VArr 1 [VNum 1, VNum 2, VNum 3])], next_ref := 10\<rparr>"

definition equals :: "int \<Rightarrow> predicate" where
  "equals n x = Inr (VBool (strict_eq x (VNum n)))"



definition starts_value :: "string \<Rightarrow> bool" where
  "starts_value s = (s \<noteq> [] \<and> \<not> is_ws (hd s) \<and> hd s \<noteq> CHR '']'' \<and> hd s \<noteq> CHR ''}'')"








section \<open>Properties\<close>

subsection \<open>Property reads and writes\<close>

lemma map_of_insert_index:
  "map_of (insert_index i (k, v) ps) k' = (if k' = k then Some v else map_of ps k')"
  if "k \<notin> fst ` set ps"
  using that by (induction ps) (auto split: option.splits)

lemma map_of_replace:
  "map_of (map (\<lambda>p. if fst p = k then (k, v) else p) qs) k' =
     (case map_of qs k' of None \<Rightarrow> None | Some x \<Rightarrow> if k' = k then Some v else Some x)"
  by (induction qs) auto

lemma map_of_obj_put: "map_of (obj_put k v ps) k' = (if k' = k then Some v else map_of ps k')"
proof (cases "k \<in> fst ` set ps")
  case True
  then have "map_of ps k \<noteq> None"
    by (simp add: map_of_eq_None_iff)
  with True show ?thesis
    by (auto simp: obj_put_def map_of_replace split: option.splits)
next
  case False
  then have "map_of ps k = None"
    by (simp add: map_of_eq_None_iff)
  with False show ?thesis
    by (auto simp: obj_put_def map_of_insert_index map_add_def split: option.splits)
qed

lemma prop_get_obj_put:
  "prop_get (obj_put k v ps) k' = (if k' = k then v else prop_get ps k')"
  by (simp add: prop_get_def map_of_obj_put)

subsection \<open>What a notification and a write leave alone\<close>

lemma set_value_string: "set_value (VStr k) v w = Inr (setState (VStr k) v w)"
  by (simp add: set_value_def)

lemma invoke_frame:
  "state (invoke n o' w c) = state w" "listeners (invoke n o' w c) = listeners w"
  "localStorage (invoke n o' w c) = localStorage w" "next_ref (invoke n o' w c) = next_ref w"
  "state_ref (invoke n o' w c) = state_ref w"
  by (simp_all add: invoke_def Let_def split: option.splits)

lemma foldl_invoke_frame:
  "state (foldl (invoke n o') w cs) = state w"
  "listeners (foldl (invoke n o') w cs) = listeners w"
  "localStorage (foldl (invoke n o') w cs) = localStorage w"
  "next_ref (foldl (invoke n o') w cs) = next_ref w"
  "state_ref (foldl (invoke n o') w cs) = state_ref w"
  by (induction cs arbitrary: w) (simp_all add: invoke_frame)


lemma notifyListeners_frame:
  "state (notifyListeners k n o' w) = state w"
  "listeners (notifyListeners k n o' w) = listeners w"
  "localStorage (notifyListeners k n o' w) = localStorage w"
  "next_ref (notifyListeners k n o' w) = next_ref w"
  "state_ref (notifyListeners k n o' w) = state_ref w"
  by (simp_all add: notifyListeners_def foldl_invoke_frame split: option.splits)

lemma setState_state: "state (setState k v w) = obj_put (to_string k) v (state w)"
  by (simp add: setState_def Let_def notifyListeners_frame)


subsection \<open>The map of listeners\<close>




lemma map_get_in_set: "map_get m k = Some x \<Longrightarrow> x \<in> snd ` set m"
  by (induction m) (auto split: if_splits)

lemma wf_listeners_map_set:
  "wf_listeners m \<Longrightarrow> distinct (map cb_id cs) \<Longrightarrow> wf_listeners (map_set k cs m)"
  by (induction m) (auto simp: wf_listeners_def)

lemma wf_listeners_get:
  "wf_listeners m \<Longrightarrow> map_get m k = Some cs \<Longrightarrow> distinct (map cb_id cs)"
  by (induction m) (auto simp: wf_listeners_def split: if_splits)


lemma distinct_set_delete: "distinct (map cb_id cs) \<Longrightarrow> distinct (map cb_id (set_delete c cs))"
  by (simp add: set_delete_def distinct_map_filter)



lemma wf_listeners_unsubscribe:
  "wf_listeners (listeners w) \<Longrightarrow> wf_listeners (listeners (snd (call_unsubscribe h w)))"
  by (cases h) (auto intro!: wf_listeners_map_set distinct_set_delete dest: wf_listeners_get
                     split: option.splits)

lemma wf_listeners_new_State: "wf_listeners (listeners (new_State w))"
  by (simp add: new_State_def wf_listeners_def)





subsection \<open>Change-gated notification\<close>



subsection \<open>Read after write\<close>




subsection \<open>Listener error isolation\<close>







subsection \<open>The bulk form of \<^verbatim>\<open>set\<close>\<close>

lemma set_each_entries: "set_each es w = Inr (set_entries es w)"
  by (induction es arbitrary: w) (simp_all add: set_entries_def set_value_string)

text \<open>
  C6. For a patch that is an object (or an array) and not \<^verbatim>\<open>null\<close>, \<^verbatim>\<open>set(patch)\<close> is
  the single-key \<^verbatim>\<open>set(k, v)\<close> applied to each entry of the patch in its enumeration
  order: the same final store, the same listener calls, the same log.
\<close>

theorem bulk_set_refinement:
  "js_typeof patch = ''object'' \<Longrightarrow> patch \<noteq> VNull \<Longrightarrow>
     set_value patch v w = set_each (own_entries patch) w"
  by (cases patch) (simp_all add: set_value_def object_entries_def set_each_entries)

theorem bulk_set_refinement_witness:
  "js_typeof (VObj 5 [(''loading'', VBool True), (''theme'', VStr ''dark'')]) = ''object''
   \<and> VObj 5 [(''loading'', VBool True), (''theme'', VStr ''dark'')] \<noteq> VNull
   \<and> set_value (VObj 5 [(''loading'', VBool True), (''theme'', VStr ''dark'')]) VUndefined two_listeners
       = set_each [(''loading'', VBool True), (''theme'', VStr ''dark'')] two_listeners"
  using bulk_set_refinement [of "VObj 5 [(''loading'', VBool True), (''theme'', VStr ''dark'')]"
          VUndefined two_listeners]
  by simp

subsection \<open>Unsubscribing\<close>









subsection \<open>The array operations\<close>

lemma filter_not_ok:
  "(\<forall>x\<in>set xs. \<exists>y. p x = Inr y) \<Longrightarrow> filter_not p xs = Inr (filter (\<lambda>x. \<not> holds p x) xs)"
  by (induction xs) (auto simp: holds_def)

lemma filter_not_throws:
  "x \<in> set xs \<Longrightarrow> p x = Inl e \<Longrightarrow> \<exists>e'. filter_not p xs = Inl e'"
  by (induction xs) (auto split: sum.splits)

lemma map_update_ok:
  "(\<forall>x\<in>set xs. \<exists>y. p x = Inr y) \<Longrightarrow>
     \<exists>ys n'. map_update p u n xs = Inr (ys, n')
       \<and> list_all2 (\<lambda>x y. if holds p x then \<exists>i. y = VObj i (spread2 x u) else y = x) xs ys"
proof (induction xs arbitrary: n)
  case Nil
  then show ?case by simp
next
  case (Cons x xs)
  from Cons.prems obtain r where r: "p x = Inr r" by auto
  from Cons.prems have all: "\<forall>x\<in>set xs. \<exists>y. p x = Inr y" by simp
  show ?case
  proof (cases "truthy r")
    case True
    from Cons.IH [OF all, of "Suc n"] obtain ys n' where
      "map_update p u (Suc n) xs = Inr (ys, n')"
      "list_all2 (\<lambda>x y. if holds p x then \<exists>i. y = VObj i (spread2 x u) else y = x) xs ys"
      by (elim exE conjE)
    with r True show ?thesis by (simp add: holds_def)
  next
    case False
    from Cons.IH [OF all, of n] obtain ys n' where
      "map_update p u n xs = Inr (ys, n')"
      "list_all2 (\<lambda>x y. if holds p x then \<exists>i. y = VObj i (spread2 x u) else y = x) xs ys"
      by (elim exE conjE)
    with r False show ?thesis by (simp add: holds_def)
  qed
qed

lemma map_update_throws:
  "x \<in> set xs \<Longrightarrow> p x = Inl e \<Longrightarrow> \<exists>e'. map_update p u n xs = Inl e'"
proof (induction xs arbitrary: n)
  case Nil
  then show ?case by simp
next
  case (Cons a xs)
  show ?case
  proof (cases "p a")
    case (Inl e0)
    then show ?thesis by simp
  next
    case (Inr r)
    with Cons.prems have "x \<in> set xs" by auto
    from Cons.IH [OF this Cons.prems(2), of n] Cons.IH [OF this Cons.prems(2), of "Suc n"]
    obtain e1 e2 where "map_update p u n xs = Inl e1" "map_update p u (Suc n) xs = Inl e2"
      by (elim exE)
    with Inr show ?thesis by simp
  qed
qed

lemma set_value_string_get:
  "\<exists>w'. set_value (VStr k) v w = Inr w' \<and> prop_get (state w') k = v"
  by (simp add: set_value_string setState_state prop_get_obj_put)

text \<open>
  C7. When the value under a key \<open>k\<close> is an array: \<^verbatim>\<open>addItem\<close> writes a new array, the
  old elements with the item appended; where the predicate returns on every element,
  \<^verbatim>\<open>removeItem\<close> writes a new array of the elements on which the predicate is falsy, in
  their order, and \<^verbatim>\<open>updateItem\<close> writes a new array in which each element on which the
  predicate is truthy is replaced by a new object \<^verbatim>\<open>{...element, ...patch}\<close>, the other
  elements and the order unchanged. When the value under \<open>k\<close> is not an array, each of
  the three returns with the store unchanged.
\<close>

theorem sequence_operations:
  "(prop_get (state w) k = VArr r xs \<longrightarrow>
      (\<exists>w'. addItem (VStr k) item w = Inr w'
          \<and> prop_get (state w') k = VArr (next_ref w) (xs @ [item]))
    \<and> ((\<forall>x\<in>set xs. \<exists>y. p x = Inr y) \<longrightarrow>
          (\<exists>w'. removeItem (VStr k) p w = Inr w'
              \<and> prop_get (state w') k = VArr (next_ref w) (filter (\<lambda>x. \<not> holds p x) xs))
        \<and> (\<exists>w' ys. updateItem (VStr k) p patch w = Inr w'
              \<and> prop_get (state w') k = VArr (next_ref w) ys
              \<and> list_all2 (\<lambda>x y. if holds p x then \<exists>i. y = VObj i (spread2 x patch) else y = x)
                   xs ys)))
   \<and> (\<not> is_array (prop_get (state w) k) \<longrightarrow>
        addItem (VStr k) item w = Inr w \<and> removeItem (VStr k) p w = Inr w
        \<and> updateItem (VStr k) p patch w = Inr w)"
proof (intro conjI impI)
  assume a: "prop_get (state w) k = VArr r xs"
  show "\<exists>w'. addItem (VStr k) item w = Inr w'
          \<and> prop_get (state w') k = VArr (next_ref w) (xs @ [item])"
    using a by (simp add: addItem_def set_value_string setState_state prop_get_obj_put)
next
  assume a: "prop_get (state w) k = VArr r xs" and ok: "\<forall>x\<in>set xs. \<exists>y. p x = Inr y"
  show "\<exists>w'. removeItem (VStr k) p w = Inr w'
              \<and> prop_get (state w') k = VArr (next_ref w) (filter (\<lambda>x. \<not> holds p x) xs)"
    using a filter_not_ok [OF ok]
    by (simp add: removeItem_def set_value_string setState_state prop_get_obj_put)
next
  assume a: "prop_get (state w) k = VArr r xs" and ok: "\<forall>x\<in>set xs. \<exists>y. p x = Inr y"
  from map_update_ok [OF ok, of patch "Suc (next_ref w)"] obtain ys n' where
    m: "map_update p patch (Suc (next_ref w)) xs = Inr (ys, n')"
    "list_all2 (\<lambda>x y. if holds p x then \<exists>i. y = VObj i (spread2 x patch) else y = x) xs ys"
    by (elim exE conjE)
  have "updateItem (VStr k) p patch w = Inr (setState (VStr k) (VArr (next_ref w) ys) (w\<lparr>next_ref := n'\<rparr>))"
    using a m(1) by (simp add: updateItem_def set_value_string)
  moreover have "prop_get (state (setState (VStr k) (VArr (next_ref w) ys) (w\<lparr>next_ref := n'\<rparr>))) k
                   = VArr (next_ref w) ys"
    by (simp add: setState_state prop_get_obj_put)
  ultimately show "\<exists>w' ys. updateItem (VStr k) p patch w = Inr w'
              \<and> prop_get (state w') k = VArr (next_ref w) ys
              \<and> list_all2 (\<lambda>x y. if holds p x then \<exists>i. y = VObj i (spread2 x patch) else y = x)
                   xs ys"
    using m(2) by blast
next
  assume "\<not> is_array (prop_get (state w) k)"
  then show "addItem (VStr k) item w = Inr w" "removeItem (VStr k) p w = Inr w"
    "updateItem (VStr k) p patch w = Inr w"
    by (simp_all add: addItem_def removeItem_def updateItem_def)
qed

lemma tags_world_tags: "prop_get (state tags_world) ''tags'' = VArr 1 [VStr ''ab'']"
  by (simp add: tags_world_def prop_get_def)

lemma fresh_world_tags: "\<not> is_array (prop_get (state fresh_world) ''tags'')"
  by (simp add: fresh_world_def prop_get_def)

theorem sequence_operations_witness:
  "prop_get (state tags_world) ''tags'' = VArr 1 [VStr ''ab'']
   \<and> list_all (\<lambda>x. \<exists>y. always x = Inr y) [VStr ''ab'']
   \<and> (\<exists>w'. addItem (VStr ''tags'') (VStr ''cd'') tags_world = Inr w'
          \<and> prop_get (state w') ''tags'' = VArr 10 [VStr ''ab'', VStr ''cd''])
   \<and> (\<exists>w'. removeItem (VStr ''tags'') always tags_world = Inr w'
          \<and> prop_get (state w') ''tags'' = VArr 10 [])
   \<and> \<not> is_array (prop_get (state fresh_world) ''tags'')
   \<and> addItem (VStr ''tags'') (VStr ''cd'') fresh_world = Inr fresh_world"
proof -
  have a: "prop_get (state tags_world) ''tags'' = VArr 1 [VStr ''ab'']"
    by (rule tags_world_tags)
  have b: "\<forall>x\<in>set [VStr ''ab'']. \<exists>y. always x = Inr y"
    by (simp add: always_def)
  have n: "next_ref tags_world = 10"
    by (simp add: tags_world_def)
  have h: "holds always (VStr ''ab'')"
    by (simp add: holds_def always_def)
  from sequence_operations [of tags_world "''tags''" 1 "[VStr ''ab'']" "VStr ''cd''" always VNull]
  have "\<exists>w'. addItem (VStr ''tags'') (VStr ''cd'') tags_world = Inr w'
          \<and> prop_get (state w') ''tags'' = VArr 10 [VStr ''ab'', VStr ''cd'']"
    and "\<exists>w'. removeItem (VStr ''tags'') always tags_world = Inr w'
          \<and> prop_get (state w') ''tags'' = VArr 10 []"
    using a b by (simp_all add: n h)
  moreover
  from sequence_operations [of fresh_world "''tags''" 1 "[]" "VStr ''cd''" always VNull]
  have "addItem (VStr ''tags'') (VStr ''cd'') fresh_world = Inr fresh_world"
    using fresh_world_tags by simp
  ultimately show ?thesis
    using a b fresh_world_tags by (simp add: list_all_iff)
qed

subsection \<open>What \<^verbatim>\<open>updateItem\<close> makes of a matched element\<close>

lemma own_entries_primitive:
  "js_typeof e = ''undefined'' \<or> js_typeof e = ''boolean'' \<or> js_typeof e = ''number'' \<or> e = VNull
     \<Longrightarrow> own_entries e = []"
  by (cases e) simp_all

lemma index_0: "array_index ''0'' = Some 0"
  by (simp add: array_index_def is_digit_def read_nat_def digit_val_def digit_char_def
        show_nat.simps)

lemma index_1: "array_index ''1'' = Some 1"
  by (simp add: array_index_def is_digit_def read_nat_def digit_val_def digit_char_def
        show_nat.simps)

lemma index_flag: "array_index ''flag'' = None"
  by (simp add: array_index_def is_digit_def)

lemma spread_ab:
  "spread2 (VStr ''ab'') (VObj 9 [(''flag'', VBool True)])
     = [(''0'', VStr ''a''), (''1'', VStr ''b''), (''flag'', VBool True)]"
  by (simp add: spread2_def put_all_def obj_put_def index_0 index_1 index_flag digit_char_def
        upt_rec show_nat.simps)

text \<open>
  C10, as amended. Where the predicate returns on every element, \<^verbatim>\<open>updateItem\<close>
  replaces each matched element by a new object \<^verbatim>\<open>{...element, ...patch}\<close>. When the
  matched element is \<^verbatim>\<open>undefined\<close>, \<^verbatim>\<open>null\<close>, a boolean or a number, that object is
  \<^verbatim>\<open>{...patch}\<close>: it holds the fields of the patch only, and the element is discarded.
\<close>

theorem update_item_spread:
  "((prop_get (state w) k = VArr r xs \<and> (\<forall>x\<in>set xs. \<exists>y. p x = Inr y)) \<longrightarrow>
      (\<exists>w' ys. updateItem (VStr k) p patch w = Inr w'
          \<and> prop_get (state w') k = VArr (next_ref w) ys
          \<and> list_all2 (\<lambda>x y. if holds p x then \<exists>i. y = VObj i (spread2 x patch) else y = x) xs ys))
   \<and> ((js_typeof e = ''undefined'' \<or> js_typeof e = ''boolean'' \<or> js_typeof e = ''number''
        \<or> e = VNull) \<longrightarrow>
        spread2 e patch = put_all [] (own_entries patch)
        \<and> (\<forall>i ps. patch = VObj i ps \<and> canonical ps \<longrightarrow> spread2 e patch = ps))"
proof (intro conjI impI)
  assume "prop_get (state w) k = VArr r xs \<and> (\<forall>x\<in>set xs. \<exists>y. p x = Inr y)"
  then have a: "prop_get (state w) k = VArr r xs" and ok: "\<forall>x\<in>set xs. \<exists>y. p x = Inr y"
    by simp_all
  from map_update_ok [OF ok, of patch "Suc (next_ref w)"] obtain ys n' where
    m: "map_update p patch (Suc (next_ref w)) xs = Inr (ys, n')"
    "list_all2 (\<lambda>x y. if holds p x then \<exists>i. y = VObj i (spread2 x patch) else y = x) xs ys"
    by (elim exE conjE)
  have "updateItem (VStr k) p patch w = Inr (setState (VStr k) (VArr (next_ref w) ys) (w\<lparr>next_ref := n'\<rparr>))"
    using a m(1) by (simp add: updateItem_def set_value_string)
  moreover have "prop_get (state (setState (VStr k) (VArr (next_ref w) ys) (w\<lparr>next_ref := n'\<rparr>))) k
                   = VArr (next_ref w) ys"
    by (simp add: setState_state prop_get_obj_put)
  ultimately show "\<exists>w' ys. updateItem (VStr k) p patch w = Inr w'
          \<and> prop_get (state w') k = VArr (next_ref w) ys
          \<and> list_all2 (\<lambda>x y. if holds p x then \<exists>i. y = VObj i (spread2 x patch) else y = x) xs ys"
    using m(2) by blast
next
  assume e: "js_typeof e = ''undefined'' \<or> js_typeof e = ''boolean'' \<or> js_typeof e = ''number''
        \<or> e = VNull"
  then show "spread2 e patch = put_all [] (own_entries patch)"
    by (simp add: spread2_def own_entries_primitive)
  from e show "\<forall>i ps. patch = VObj i ps \<and> canonical ps \<longrightarrow> spread2 e patch = ps"
    by (simp add: spread2_def own_entries_primitive canonical_def)
qed

text \<open>
  A string is a primitive too, and the spread copies its characters: a matched
  \<^verbatim>\<open>'ab'\<close> becomes \<^verbatim>\<open>{0: 'a', 1: 'b', flag: true}\<close>.
\<close>

theorem update_item_spread_counterexample:
  "js_typeof (VStr ''ab'') = ''string''
   \<and> updateItem (VStr ''tags'') always (VObj 9 [(''flag'', VBool True)]) tags_world
       = Inr (tags_world\<lparr>state := [(''tags'', VArr 10
                [VObj 11 [(''0'', VStr ''a''), (''1'', VStr ''b''), (''flag'', VBool True)]])],
              next_ref := 12\<rparr>)"
proof -
  have n: "next_ref tags_world = 10"
    by (simp add: tags_world_def)
  have "updateItem (VStr ''tags'') always (VObj 9 [(''flag'', VBool True)]) tags_world
          = Inr (setState (VStr ''tags'')
                   (VArr 10 [VObj 11 [(''0'', VStr ''a''), (''1'', VStr ''b''), (''flag'', VBool True)]])
                   (tags_world\<lparr>next_ref := 12\<rparr>))"
    by (simp add: updateItem_def tags_world_tags n always_def spread_ab set_value_string)
  also have "setState (VStr ''tags'')
                   (VArr 10 [VObj 11 [(''0'', VStr ''a''), (''1'', VStr ''b''), (''flag'', VBool True)]])
                   (tags_world\<lparr>next_ref := 12\<rparr>)
          = tags_world\<lparr>state := [(''tags'', VArr 10
                [VObj 11 [(''0'', VStr ''a''), (''1'', VStr ''b''), (''flag'', VBool True)]])],
              next_ref := 12\<rparr>"
    by (simp add: setState_def Let_def notifyListeners_def tags_world_def fresh_world_def
          obj_put_def prop_get_def)
  finally show ?thesis by simp
qed

lemma nums_world_nums: "prop_get (state nums_world) ''nums'' = VArr 1 [VNum 1, VNum 2, VNum 3]"
  by (simp add: nums_world_def prop_get_def)

lemma canonical_flag: "canonical [(''flag'', VBool True)]"
  by (simp add: canonical_def put_all_def obj_put_def index_flag)

theorem update_item_spread_witness:
  "prop_get (state nums_world) ''nums'' = VArr 1 [VNum 1, VNum 2, VNum 3]
   \<and> list_all (\<lambda>x. \<exists>y. equals 1 x = Inr y) [VNum 1, VNum 2, VNum 3]
   \<and> js_typeof (VNum 1) = ''number''
   \<and> canonical [(''flag'', VBool True)]
   \<and> (\<exists>w' i. updateItem (VStr ''nums'') (equals 1) (VObj 9 [(''flag'', VBool True)]) nums_world
                = Inr w'
         \<and> prop_get (state w') ''nums'' = VArr 10 [VObj i [(''flag'', VBool True)], VNum 2, VNum 3])"
proof -
  let ?patch = "VObj 9 [(''flag'', VBool True)]"
  have a: "prop_get (state nums_world) ''nums'' = VArr 1 [VNum 1, VNum 2, VNum 3]"
    by (rule nums_world_nums)
  have b: "\<forall>x\<in>set [VNum 1, VNum 2, VNum 3]. \<exists>y. equals 1 x = Inr y"
    by (simp add: equals_def)
  have c: "js_typeof (VNum 1) = ''number''"
    by simp
  have n: "next_ref nums_world = 10"
    by (simp add: nums_world_def)
  have h: "holds (equals 1) (VNum 1)" "\<not> holds (equals 1) (VNum 2)" "\<not> holds (equals 1) (VNum 3)"
    by (simp_all add: holds_def equals_def)
  note t = update_item_spread [of nums_world "''nums''" 1 "[VNum 1, VNum 2, VNum 3]" "equals 1"
      ?patch "VNum 1"]
  from t c canonical_flag have s: "spread2 (VNum 1) ?patch = [(''flag'', VBool True)]"
    by (simp add: canonical_def)
  from t a b obtain w' ys where
    u: "updateItem (VStr ''nums'') (equals 1) ?patch nums_world = Inr w'"
      "prop_get (state w') ''nums'' = VArr (next_ref nums_world) ys"
      "list_all2 (\<lambda>x y. if holds (equals 1) x then \<exists>i. y = VObj i (spread2 x ?patch) else y = x)
         [VNum 1, VNum 2, VNum 3] ys"
    by blast
  from u(3) obtain i where "ys = [VObj i (spread2 (VNum 1) ?patch), VNum 2, VNum 3]"
    by (auto simp: list_all2_Cons1 h)
  with u(1,2) have "\<exists>w' i. updateItem (VStr ''nums'') (equals 1) ?patch nums_world = Inr w'
         \<and> prop_get (state w') ''nums'' = VArr 10 [VObj i [(''flag'', VBool True)], VNum 2, VNum 3]"
    by (auto simp: n s)
  with a b c canonical_flag show ?thesis by (simp add: list_all_iff)
qed

subsection \<open>The defaults and the seed\<close>

lemma map_of_put_all:
  "map_of (put_all ps es) k = (case map_of (rev es) k of Some v \<Rightarrow> Some v | None \<Rightarrow> map_of ps k)"
proof (induction es arbitrary: ps)
  case Nil
  then show ?case by (simp add: put_all_def)
next
  case (Cons e es)
  have "put_all ps (e # es) = put_all (obj_put (fst e) (snd e) ps) es"
    by (simp add: put_all_def)
  then show ?case
    by (cases e) (auto simp: Cons.IH map_of_obj_put map_add_def split: option.splits)
qed

lemma init_ok:
  "mode (localStorage w) \<noteq> Blocked \<Longrightarrow> \<exists>w'. init seed w = Inr w'"
  by (simp add: init_def getItem_def Let_def)

lemma init_frame:
  assumes "init seed w = Inr w'"
  shows "calls w' = calls w" "console w' = console w" "listeners w' = listeners w"
    "localStorage w' = localStorage w"
  using assms by (auto simp: init_def Let_def split: sum.splits)

lemma init_state:
  assumes "init seed w = Inr w'"
  shows "\<exists>t. getItem (localStorage w) ''theme'' = Inr t
           \<and> state w' = put_all [] (default_entries t (next_ref w) @ own_entries seed)"
  using assms by (auto simp: init_def Let_def split: sum.splits)

lemma map_of_rev_default_entries:
  "map_of (rev (default_entries t n)) k = map_of (default_entries t n) k"
  by (simp add: default_entries_def)

lemma prop_get_seeded:
  "prop_get (put_all [] (default_entries t n @ es)) k =
     (case map_of (rev es) k of Some v \<Rightarrow> v | None \<Rightarrow> prop_get (default_entries t n) k)"
  by (simp add: prop_get_def map_of_put_all map_add_def map_of_rev_default_entries
        split: option.splits)

text \<open>
  C8. \<^verbatim>\<open>reset(seed)\<close> is \<^verbatim>\<open>init(seed)\<close>, and it returns whenever the storage can be read.
  When it returns, no listener was called, nothing was logged, the map of listeners is
  the one before, and each key of the new state holds the value the seed gives it, or
  else its default.
\<close>

theorem reset_is_init:
  "reset seed w = init seed w
   \<and> (mode (localStorage w) \<noteq> Blocked \<longrightarrow> (\<exists>w'. reset seed w = Inr w'))
   \<and> (\<forall>w'. reset seed w = Inr w' \<longrightarrow>
         calls w' = calls w \<and> console w' = console w \<and> listeners w' = listeners w
         \<and> (\<exists>t. getItem (localStorage w) ''theme'' = Inr t
               \<and> (\<forall>k. prop_get (state w') k =
                     (case map_of (rev (own_entries seed)) k of
                        Some v \<Rightarrow> v
                      | None \<Rightarrow> prop_get (default_entries t (next_ref w)) k))))"
proof (intro conjI allI impI)
  show "reset seed w = init seed w"
    by (simp add: reset_def)
next
  assume "mode (localStorage w) \<noteq> Blocked"
  then show "\<exists>w'. reset seed w = Inr w'"
    by (simp add: reset_def init_ok)
next
  fix w'
  assume "reset seed w = Inr w'"
  then have i: "init seed w = Inr w'"
    by (simp add: reset_def)
  show "calls w' = calls w" "console w' = console w" "listeners w' = listeners w"
    by (simp_all add: init_frame [OF i])
  from init_state [OF i] obtain t where
    t: "getItem (localStorage w) ''theme'' = Inr t"
      "state w' = put_all [] (default_entries t (next_ref w) @ own_entries seed)"
    by (elim exE conjE)
  show "\<exists>t. getItem (localStorage w) ''theme'' = Inr t
               \<and> (\<forall>k. prop_get (state w') k =
                     (case map_of (rev (own_entries seed)) k of
                        Some v \<Rightarrow> v
                      | None \<Rightarrow> prop_get (default_entries t (next_ref w)) k))"
    using t by (simp add: prop_get_seeded)
qed

lemma two_listeners_storage: "localStorage two_listeners = \<lparr>items = Map.empty, mode = Available\<rparr>"
  by (simp add: two_listeners_def subscribe_def Let_def fresh_world_def)

theorem reset_is_init_witness:
  "mode (localStorage two_listeners) \<noteq> Blocked
   \<and> (\<exists>w'. reset (VObj 5 [(''loading'', VBool True)]) two_listeners = Inr w'
         \<and> calls w' = calls two_listeners \<and> listeners w' = listeners two_listeners
         \<and> prop_get (state w') ''loading'' = VBool True
         \<and> prop_get (state w') ''sidebarOpen'' = VBool True
         \<and> prop_get (state w') ''theme'' = VStr ''light'')"
proof -
  let ?seed = "VObj 5 [(''loading'', VBool True)]"
  have m: "mode (localStorage two_listeners) \<noteq> Blocked"
    by (simp add: two_listeners_storage)
  have g: "getItem (localStorage two_listeners) ''theme'' = Inr VNull"
    by (simp add: two_listeners_storage getItem_def)
  note t = reset_is_init [of ?seed two_listeners]
  from t m obtain w' where w': "reset ?seed two_listeners = Inr w'"
    by blast
  with t have f: "calls w' = calls two_listeners" "listeners w' = listeners two_listeners"
    by simp_all
  from t w' g have p: "prop_get (state w') k =
      (case map_of (rev (own_entries ?seed)) k of
         Some v \<Rightarrow> v
       | None \<Rightarrow> prop_get (default_entries VNull (next_ref two_listeners)) k)" for k
    by auto
  have "prop_get (state w') ''loading'' = VBool True"
    "prop_get (state w') ''sidebarOpen'' = VBool True"
    "prop_get (state w') ''theme'' = VStr ''light''"
    unfolding p by (simp_all add: default_entries_def prop_get_def)
  with m w' f show ?thesis by simp
qed

subsection \<open>What is raised to the caller\<close>

text \<open>
  A predicate is called outside any \<^verbatim>\<open>try\<close>: what it throws leaves \<^verbatim>\<open>removeItem\<close>.
\<close>

theorem never_raises_counterexample:
  "removeItem (VStr ''tags'') throwing tags_world = Inl (Thrown (VStr ''boom''))"
  by (simp add: removeItem_def tags_world_tags throwing_def)

lemma removeItem_ok:
  "\<forall>x\<in>set (array_items (prop_get (state w) k)). \<exists>y. p x = Inr y \<Longrightarrow>
     \<exists>w'. removeItem (VStr k) p w = Inr w'"
  using filter_not_ok [of "array_items (prop_get (state w) k)" p]
  by (simp add: removeItem_def Let_def set_value_string)

lemma updateItem_ok:
  assumes "\<forall>x\<in>set (array_items (prop_get (state w) k)). \<exists>y. p x = Inr y"
  shows "\<exists>w'. updateItem (VStr k) p patch w = Inr w'"
proof -
  from map_update_ok [OF assms, of patch "Suc (next_ref w)"] obtain ys n' where
    "map_update p patch (Suc (next_ref w)) (array_items (prop_get (state w) k)) = Inr (ys, n')"
    by (elim exE conjE)
  then show ?thesis
    by (simp add: updateItem_def Let_def set_value_string)
qed

lemma removeItem_throws:
  assumes "\<exists>x e. x \<in> set (array_items (prop_get (state w) k)) \<and> p x = Inl e"
  shows "\<exists>e. removeItem (VStr k) p w = Inl e"
proof -
  from assms obtain x e where x: "x \<in> set (array_items (prop_get (state w) k))" "p x = Inl e"
    by (elim exE conjE)
  from x(1) have "is_array (prop_get (state w) k)"
    by (cases "prop_get (state w) k") simp_all
  moreover from filter_not_throws [where p = p, OF x] obtain e' where
    "filter_not p (array_items (prop_get (state w) k)) = Inl e'"
    by (elim exE)
  ultimately show ?thesis
    by (simp add: removeItem_def Let_def)
qed

lemma updateItem_throws:
  assumes "\<exists>x e. x \<in> set (array_items (prop_get (state w) k)) \<and> p x = Inl e"
  shows "\<exists>e. updateItem (VStr k) p patch w = Inl e"
proof -
  from assms obtain x e where x: "x \<in> set (array_items (prop_get (state w) k))" "p x = Inl e"
    by (elim exE conjE)
  from x(1) have "is_array (prop_get (state w) k)"
    by (cases "prop_get (state w) k") simp_all
  moreover from map_update_throws [where p = p and u = patch and n = "Suc (next_ref w)", OF x] obtain e' where
    "map_update p patch (Suc (next_ref w)) (array_items (prop_get (state w) k)) = Inl e'"
    by (elim exE)
  ultimately show ?thesis
    by (simp add: updateItem_def Let_def)
qed

lemma set_value_ok: "keyOrObject \<noteq> VNull \<Longrightarrow> \<exists>w'. set_value keyOrObject v w = Inr w'"
  by (cases keyOrObject) (simp_all add: set_value_def object_entries_def)

lemma persist_absorbs:
  "mode (localStorage w) \<noteq> Available \<Longrightarrow>
     \<exists>e. persist key w = w\<lparr>console := console w @ [(''Error persisting state:'', e)]\<rparr>"
  by (cases "mode (localStorage w)") (auto simp: persist_def setItem_def)

text \<open>
  C3, as amended. With a string key, \<^verbatim>\<open>toggle\<close> and \<^verbatim>\<open>addItem\<close> always return;
  \<^verbatim>\<open>set\<close> returns for every first argument but \<^verbatim>\<open>null\<close>, whatever the listeners
  throw; \<^verbatim>\<open>removeItem\<close> and \<^verbatim>\<open>updateItem\<close> return when the predicate returns on every
  element of the array, and raise when it throws on one; \<^verbatim>\<open>reset\<close> returns when the
  storage can be read. Misuse is a
  no-op: \<^verbatim>\<open>toggle\<close> of a value that is not a boolean, and \<^verbatim>\<open>addItem\<close>, \<^verbatim>\<open>removeItem\<close>
  and \<^verbatim>\<open>updateItem\<close> of a value that is not an array, return with the store unchanged.
  A failure of the storage is absorbed and logged by \<^verbatim>\<open>persist\<close> and by
  \<^verbatim>\<open>loadPersisted\<close>, which returns \<^verbatim>\<open>null\<close>. (\<open>get\<close>, \<open>subscribe\<close>, the handle,
  \<open>persist\<close> and \<open>loadPersisted\<close> have no branch that raises.)
\<close>

theorem raises_only_as_listed:
  "(\<exists>w'. toggle (VStr k) w = Inr w')
   \<and> (\<exists>w'. addItem (VStr k) item w = Inr w')
   \<and> (keyOrObject \<noteq> VNull \<longrightarrow> (\<exists>w'. set_value keyOrObject v w = Inr w'))
   \<and> ((\<forall>x\<in>set (array_items (prop_get (state w) k)). \<exists>y. p x = Inr y) \<longrightarrow>
         (\<exists>w'. removeItem (VStr k) p w = Inr w') \<and> (\<exists>w'. updateItem (VStr k) p patch w = Inr w'))
   \<and> (mode (localStorage w) \<noteq> Blocked \<longrightarrow> (\<exists>w'. reset seed w = Inr w'))
   \<and> (js_typeof (prop_get (state w) k) \<noteq> ''boolean'' \<longrightarrow> toggle (VStr k) w = Inr w)
   \<and> (\<not> is_array (prop_get (state w) k) \<longrightarrow>
         addItem (VStr k) item w = Inr w \<and> removeItem (VStr k) p w = Inr w
         \<and> updateItem (VStr k) p patch w = Inr w)
   \<and> (mode (localStorage w) \<noteq> Available \<longrightarrow>
         (\<exists>e. persist key w = w\<lparr>console := console w @ [(''Error persisting state:'', e)]\<rparr>))
   \<and> (mode (localStorage w) = Blocked \<longrightarrow> loadPersisted key w = load_failed SecurityError w)
   \<and> ((\<exists>x e. x \<in> set (array_items (prop_get (state w) k)) \<and> p x = Inl e) \<longrightarrow>
         (\<exists>e. removeItem (VStr k) p w = Inl e) \<and> (\<exists>e. updateItem (VStr k) p patch w = Inl e))"
proof (intro conjI impI)
  show "\<exists>w'. toggle (VStr k) w = Inr w'"
    by (simp add: toggle_def Let_def set_value_string)
  show "\<exists>w'. addItem (VStr k) item w = Inr w'"
    by (simp add: addItem_def Let_def set_value_string)
next
  assume "keyOrObject \<noteq> VNull"
  then show "\<exists>w'. set_value keyOrObject v w = Inr w'"
    by (rule set_value_ok)
next
  assume "\<forall>x\<in>set (array_items (prop_get (state w) k)). \<exists>y. p x = Inr y"
  then show "\<exists>w'. removeItem (VStr k) p w = Inr w'" "\<exists>w'. updateItem (VStr k) p patch w = Inr w'"
    by (rule removeItem_ok, rule updateItem_ok)
next
  assume "mode (localStorage w) \<noteq> Blocked"
  then show "\<exists>w'. reset seed w = Inr w'"
    by (simp add: reset_def init_ok)
next
  assume "js_typeof (prop_get (state w) k) \<noteq> ''boolean''"
  then show "toggle (VStr k) w = Inr w"
    by (simp add: toggle_def)
next
  assume "\<not> is_array (prop_get (state w) k)"
  then show "addItem (VStr k) item w = Inr w" "removeItem (VStr k) p w = Inr w"
    "updateItem (VStr k) p patch w = Inr w"
    by (simp_all add: addItem_def removeItem_def updateItem_def)
next
  assume "mode (localStorage w) \<noteq> Available"
  then show "\<exists>e. persist key w = w\<lparr>console := console w @ [(''Error persisting state:'', e)]\<rparr>"
    by (rule persist_absorbs)
next
  assume "mode (localStorage w) = Blocked"
  then show "loadPersisted key w = load_failed SecurityError w"
    by (simp add: loadPersisted_def getItem_def)
next
  assume "\<exists>x e. x \<in> set (array_items (prop_get (state w) k)) \<and> p x = Inl e"
  then show "\<exists>e. removeItem (VStr k) p w = Inl e" "\<exists>e. updateItem (VStr k) p patch w = Inl e"
    by (rule removeItem_throws, rule updateItem_throws)
qed

theorem raises_only_as_listed_witness:
  "VStr ''nums'' \<noteq> VNull
   \<and> list_all (\<lambda>x. \<exists>y. equals 2 x = Inr y) (array_items (prop_get (state nums_world) ''nums''))
   \<and> mode (localStorage nums_world) \<noteq> Blocked
   \<and> js_typeof (prop_get (state nums_world) ''nums'') \<noteq> ''boolean''
   \<and> \<not> is_array (prop_get (state fresh_world) ''tags'')
   \<and> mode (localStorage (nums_world\<lparr>localStorage := \<lparr>items = Map.empty, mode = Blocked\<rparr>\<rparr>)) \<noteq> Available
   \<and> VStr ''ab'' \<in> set (array_items (prop_get (state tags_world) ''tags''))
   \<and> throwing (VStr ''ab'') = Inl (Thrown (VStr ''boom''))
   \<and> (\<exists>w'. set_value (VStr ''nums'') VNull nums_world = Inr w')
   \<and> (\<exists>w'. removeItem (VStr ''nums'') (equals 2) nums_world = Inr w')
   \<and> (\<exists>w'. updateItem (VStr ''nums'') (equals 2) VNull nums_world = Inr w')
   \<and> (\<exists>w'. reset VUndefined nums_world = Inr w')
   \<and> toggle (VStr ''nums'') nums_world = Inr nums_world
   \<and> removeItem (VStr ''tags'') throwing fresh_world = Inr fresh_world
   \<and> loadPersisted (VStr ''nums'') (nums_world\<lparr>localStorage := \<lparr>items = Map.empty, mode = Blocked\<rparr>\<rparr>)
       = load_failed SecurityError (nums_world\<lparr>localStorage := \<lparr>items = Map.empty, mode = Blocked\<rparr>\<rparr>)
   \<and> (\<exists>e. updateItem (VStr ''tags'') throwing VNull tags_world = Inl e)"
proof -
  let ?b = "nums_world\<lparr>localStorage := \<lparr>items = Map.empty, mode = Blocked\<rparr>\<rparr>"
  have a: "VStr ''nums'' \<noteq> VNull" by simp
  have b: "\<forall>x\<in>set (array_items (prop_get (state nums_world) ''nums'')). \<exists>y. equals 2 x = Inr y"
    by (simp add: equals_def)
  have c: "mode (localStorage nums_world) \<noteq> Blocked"
    by (simp add: nums_world_def fresh_world_def)
  have d: "js_typeof (prop_get (state nums_world) ''nums'') \<noteq> ''boolean''"
    by (simp add: nums_world_nums)
  have e: "mode (localStorage ?b) \<noteq> Available" "mode (localStorage ?b) = Blocked"
    by simp_all
  have f: "VStr ''ab'' \<in> set (array_items (prop_get (state tags_world) ''tags''))"
    "throwing (VStr ''ab'') = Inl (Thrown (VStr ''boom''))"
    by (simp_all add: tags_world_tags throwing_def)
  then have g: "\<exists>x e. x \<in> set (array_items (prop_get (state tags_world) ''tags'')) \<and> throwing x = Inl e"
    by blast
  note t1 = raises_only_as_listed [of "''nums''" nums_world VNull "VStr ''nums''" VNull
      "equals 2" VNull VUndefined "VStr ''nums''"]
  note t2 = raises_only_as_listed [of "''tags''" fresh_world VNull "VStr ''tags''" VNull
      throwing VNull VUndefined "VStr ''tags''"]
  note t3 = raises_only_as_listed [of "''nums''" ?b VNull "VStr ''nums''" VNull
      "equals 2" VNull VUndefined "VStr ''nums''"]
  note t4 = raises_only_as_listed [of "''tags''" tags_world VNull "VStr ''tags''" VNull
      throwing VNull VUndefined "VStr ''tags''"]
  from t1 a b c d have
    "\<exists>w'. set_value (VStr ''nums'') VNull nums_world = Inr w'"
    "\<exists>w'. removeItem (VStr ''nums'') (equals 2) nums_world = Inr w'"
    "\<exists>w'. updateItem (VStr ''nums'') (equals 2) VNull nums_world = Inr w'"
    "\<exists>w'. reset VUndefined nums_world = Inr w'"
    "toggle (VStr ''nums'') nums_world = Inr nums_world"
    by blast+
  moreover from t2 fresh_world_tags have "removeItem (VStr ''tags'') throwing fresh_world = Inr fresh_world"
    by blast
  moreover from t3 e have "loadPersisted (VStr ''nums'') ?b = load_failed SecurityError ?b"
    by blast
  moreover from t4 g have "\<exists>e. updateItem (VStr ''tags'') throwing VNull tags_world = Inl e"
    by blast
  ultimately show ?thesis
    using a b c d e(1) f fresh_world_tags by (simp add: list_all_iff)
qed

subsection \<open>Numerals are read back\<close>











subsection \<open>Quoted strings are read back\<close>








subsection \<open>The steps of the parser on a printed text\<close>

lemma skip_ws_starts: "starts_value s \<Longrightarrow> skip_ws s = s"
  by (cases s) (simp_all add: starts_value_def)



















subsection \<open>A printed text is read back\<close>






subsection \<open>A representable value is parsed back from its text\<close>












lemma from_json_list_length: "length (fst (from_json_list js n)) = length js"
  by (induction js arbitrary: n) (simp_all add: split_beta)


subsection \<open>The persist round trip\<close>











end
